theory Spec2Isabelle
  imports Main "HOL-Library.Word" "HOL-Library.Sublist"
begin

section \<open>JavaScript strings\<close>

text \<open>
  A JavaScript string is a sequence of UTF-16 code units. \<open>String.prototype.trim\<close> and the
  regular-expression class \<open>\s\<close> work on code points, but every code point they look for
  lies in the Basic Multilingual Plane, so working on code units is exact.
\<close>

type_synonym code_unit = "16 word"
type_synonym jsstring = "code_unit list"

text \<open>An ASCII literal of the source, as code units.\<close>

definition js :: "string \<Rightarrow> jsstring" where
  "js s = map of_char s"

text \<open>
  ECMAScript \<open>WhiteSpace\<close> and \<open>LineTerminator\<close>: TAB, LF, VT, FF, CR, SP, NBSP, the
  Unicode space separators (U+1680, U+2000..U+200A, U+202F, U+205F, U+3000), LS, PS and
  the byte order mark. This is the set that \<open>trim\<close> strips and that \<open>\s\<close> matches.
\<close>

definition isWhiteSpace :: "code_unit \<Rightarrow> bool" where
  "isWhiteSpace c \<longleftrightarrow>
     c = 0x0009 \<or> c = 0x000A \<or> c = 0x000B \<or> c = 0x000C \<or> c = 0x000D \<or> c = 0x0020 \<or>
     c = 0x00A0 \<or> c = 0x1680 \<or> (0x2000 \<le> c \<and> c \<le> 0x200A) \<or>
     c = 0x2028 \<or> c = 0x2029 \<or> c = 0x202F \<or> c = 0x205F \<or> c = 0x3000 \<or> c = 0xFEFF"

definition newline :: code_unit where
  "newline = 0x000A"

definition comma :: code_unit where
  "comma = 0x002C"

definition hyphen :: code_unit where
  "hyphen = 0x002D"

text \<open>\<open>String.prototype.trim\<close>: strip white space from both ends.\<close>

definition trim :: "jsstring \<Rightarrow> jsstring" where
  "trim s = rev (dropWhile isWhiteSpace (rev (dropWhile isWhiteSpace s)))"

text \<open>\<open>Array.prototype.join\<close> on an array of strings.\<close>

fun join :: "jsstring \<Rightarrow> jsstring list \<Rightarrow> jsstring" where
  "join sep [] = []"
| "join sep [x] = x"
| "join sep (x # y # ys) = x @ sep @ join sep (y # ys)"

text \<open>Reading \<open>xs[i]\<close> of a JavaScript array: \<open>None\<close> stands for \<open>undefined\<close>.\<close>

definition at :: "'a list \<Rightarrow> nat \<Rightarrow> 'a option" where
  "at xs i = (if i < length xs then Some (xs ! i) else None)"


section \<open>Catalogue lookup: \<open>getTone\<close> and \<open>getTheme\<close> (page.tsx, lines 80-81)\<close>

text \<open>
  \<open>ToneOption\<close> and \<open>ThemeOption\<close> are imported types; the fields are the ones the page
  reads (\<open>tone.id\<close>, \<open>tone.name\<close>, \<open>tone.headlineModifier\<close>, \<open>theme.id\<close>, \<open>theme.name\<close>,
  \<open>theme.palette\<close>). The page reads the colour roles \<open>palette.text\<close> and
  \<open>palette.surface\<close>; the specification names a primary and an accent role for the
  gradient. The catalogue arrays \<open>TONES\<close> and \<open>THEMES\<close>
  are imported constants whose literals are not part of page.tsx, so both lookups take the
  catalogue as a parameter.
\<close>

record ToneOption =
  tone_id :: jsstring
  tone_name :: jsstring
  headlineModifier :: jsstring

record Palette =
  role_primary :: jsstring
  role_accent :: jsstring
  role_surface :: jsstring
  role_text :: jsstring

record ThemeOption =
  theme_id :: jsstring
  theme_name :: jsstring
  palette :: Palette

text \<open>
  \<^verbatim>\<open>const getTone = (id: string): ToneOption => TONES.find((tone) => tone.id === id) ?? TONES[0];\<close>
  \<^verbatim>\<open>const getTheme = (id: string): ThemeOption => THEMES.find((theme) => theme.id === id) ?? THEMES[0];\<close>

  \<open>Array.prototype.find\<close> yields the first element that satisfies the predicate, or
  \<open>undefined\<close>; \<open>??\<close> then takes the right operand. Catalogue entries are objects, never
  nullish, so \<open>??\<close> fires exactly when nothing was found.
\<close>

definition getTone :: "ToneOption list \<Rightarrow> jsstring \<Rightarrow> ToneOption option" where
  "getTone TONES ident =
     (case find (\<lambda>tone. tone_id tone = ident) TONES of
        Some tone \<Rightarrow> Some tone
      | None \<Rightarrow> at TONES 0)"

definition getTheme :: "ThemeOption list \<Rightarrow> jsstring \<Rightarrow> ThemeOption option" where
  "getTheme THEMES ident =
     (case find (\<lambda>theme. theme_id theme = ident) THEMES of
        Some theme \<Rightarrow> Some theme
      | None \<Rightarrow> at THEMES 0)"

text \<open>
  Two small catalogues for concrete evaluation. The identifiers and colours are samples;
  only their shape (distinct identifiers, at least two themes, as \<open>THEMES[1].id\<close> in
  \<open>INITIAL_FORM\<close> requires) matters.
\<close>

definition sampleTones :: "ToneOption list" where
  "sampleTones =
     [\<lparr>tone_id = js ''bold'', tone_name = js ''Bold'', headlineModifier = js ''Now''\<rparr>,
      \<lparr>tone_id = js ''calm'', tone_name = js ''Calm'', headlineModifier = js ''Simply''\<rparr>]"

definition sampleThemes :: "ThemeOption list" where
  "sampleThemes =
     [\<lparr>theme_id = js ''dawn'', theme_name = js ''Dawn'',
       palette = \<lparr>role_primary = js ''#f97316'', role_accent = js ''#facc15'',
                  role_surface = js ''#fafaf9'', role_text = js ''#1c1917''\<rparr>\<rparr>,
      \<lparr>theme_id = js ''dusk'', theme_name = js ''Dusk'',
       palette = \<lparr>role_primary = js ''#6366f1'', role_accent = js ''#22d3ee'',
                  role_surface = js ''#0f172a'', role_text = js ''#f8fafc''\<rparr>\<rparr>]"


section \<open>\<open>parseFeatures\<close> (page.tsx, lines 74-78)\<close>

text \<open>
  \<^verbatim>\<open>const parseFeatures = (value: string) =>
    value.split(/\n|,/).map((entry) => entry.trim()).filter(Boolean);\<close>
\<close>

definition isSeparator :: "code_unit \<Rightarrow> bool" where
  "isSeparator c \<longleftrightarrow> c = newline \<or> c = comma"

text \<open>
  \<open>split\<close> with the pattern \<open>/\n|,/\<close>, which matches exactly one code unit. The loop of
  \<open>RegExp.prototype[@@split]\<close> walks the string with two indices \<open>p \<le> q\<close>; \<open>piece\<close> is the
  text between them. At a separator the piece is pushed and a new one starts behind the
  separator; at the end the last piece is pushed, empty or not. On the empty string the
  pattern does not match and the result is the one-element array holding the empty string.
\<close>

fun split_loop :: "jsstring \<Rightarrow> jsstring \<Rightarrow> jsstring list" where
  "split_loop piece [] = [piece]"
| "split_loop piece (c # cs) =
     (if isSeparator c then piece # split_loop [] cs else split_loop (piece @ [c]) cs)"

definition split :: "jsstring \<Rightarrow> jsstring list" where
  "split v = split_loop [] v"

text \<open>\<open>filter(Boolean)\<close> keeps the truthy entries; a string is falsy only when empty.\<close>

definition parseFeatures :: "jsstring \<Rightarrow> jsstring list" where
  "parseFeatures v = filter (\<lambda>entry. entry \<noteq> []) (map trim (split v))"

text \<open>
  The specification's wording, for comparison: the entries of a text are the text up to
  its first separator, followed by the entries of what comes after that separator.
\<close>

function entries_spec :: "jsstring \<Rightarrow> jsstring list" where
  "entries_spec v =
     (case dropWhile (\<lambda>c. \<not> isSeparator c) v of
        [] \<Rightarrow> [v]
      | _ # rest \<Rightarrow> takeWhile (\<lambda>c. \<not> isSeparator c) v # entries_spec rest)"
  by pat_completeness auto
termination
proof (relation "measure length")
  show "wf (measure (length :: jsstring \<Rightarrow> nat))"
    by simp
next
  fix v :: jsstring and x rest
  assume "dropWhile (\<lambda>c. \<not> isSeparator c) v = x # rest"
  then have "length (x # rest) \<le> length v"
    by (metis length_dropWhile_le)
  then show "(rest, v) \<in> measure length"
    by simp
qed

definition parseFeatures_spec :: "jsstring \<Rightarrow> jsstring list" where
  "parseFeatures_spec v = [e \<leftarrow> map trim (entries_spec v). e \<noteq> []]"

text \<open>An entry as \<open>parseFeatures\<close> leaves it.\<close>

definition normalized :: "jsstring \<Rightarrow> bool" where
  "normalized e \<longleftrightarrow>
     e \<noteq> [] \<and> \<not> isWhiteSpace (hd e) \<and> \<not> isWhiteSpace (last e) \<and>
     list_all (\<lambda>c. \<not> isSeparator c) e"


section \<open>\<open>handleDownload\<close> (page.tsx, lines 207-217)\<close>

text \<open>
  \<open>replace(/\s+/g, "-")\<close>: the global replace scans from the left; where \<open>\s+\<close> matches it
  takes the longest run of white space, emits one hyphen and goes on behind the run;
  elsewhere the code unit is copied.
\<close>

function replaceWhiteSpace :: "jsstring \<Rightarrow> jsstring" where
  "replaceWhiteSpace [] = []"
| "replaceWhiteSpace (c # cs) =
     (if isWhiteSpace c then hyphen # replaceWhiteSpace (dropWhile isWhiteSpace cs)
      else c # replaceWhiteSpace cs)"
  by pat_completeness auto
termination
  by (relation "measure length") (auto simp: less_Suc_eq_le length_dropWhile_le)

text \<open>
  What the handler hands to the browser: the parts and the type of the \<open>Blob\<close>, and the
  \<open>download\<close> attribute of the link it clicks. \<open>exportHtml\<close> is the memoised
  \<open>buildExportHtml(blueprint)\<close>, \<open>productName\<close> is \<open>form.productName\<close>.
  \<open>String.prototype.toLowerCase\<close> is the engine's Unicode lower-casing, taken as a
  parameter.

  \<^verbatim>\<open>const blob = new Blob([exportHtml], { type: "text/html;charset=utf-8" });
  link.download = `${form.productName.replace(/\s+/g, "-").toLowerCase()}-landing.html`;\<close>
\<close>

record DownloadRequest =
  blobParts :: "jsstring list"
  blobType :: jsstring
  download :: jsstring

definition handleDownload ::
  "(jsstring \<Rightarrow> jsstring) \<Rightarrow> jsstring \<Rightarrow> jsstring \<Rightarrow> DownloadRequest" where
  "handleDownload toLowerCase exportHtml productName =
     \<lparr>blobParts = [exportHtml],
      blobType = js ''text/html;charset=utf-8'',
      download = toLowerCase (replaceWhiteSpace productName) @ js ''-landing.html''\<rparr>"

text \<open>
  The specification's wording, for comparison: cut the name into its maximal runs of white
  space and of other code units, and put one hyphen for each run of white space.
\<close>

function runs :: "jsstring \<Rightarrow> jsstring list" where
  "runs [] = []"
| "runs (c # cs) =
     (c # takeWhile (\<lambda>d. isWhiteSpace d = isWhiteSpace c) cs)
       # runs (dropWhile (\<lambda>d. isWhiteSpace d = isWhiteSpace c) cs)"
  by pat_completeness auto
termination
  by (relation "measure length") (auto simp: less_Suc_eq_le length_dropWhile_le)

text \<open>Neighbouring runs are of different kinds: no run can be made longer.\<close>

fun alternating :: "jsstring list \<Rightarrow> bool" where
  "alternating (r1 # r2 # rs) \<longleftrightarrow>
     isWhiteSpace (hd r1) \<noteq> isWhiteSpace (hd r2) \<and> alternating (r2 # rs)"
| "alternating [r] \<longleftrightarrow> True"
| "alternating [] \<longleftrightarrow> True"

definition hyphenate_runs :: "jsstring \<Rightarrow> jsstring" where
  "hyphenate_runs name =
     concat (map (\<lambda>run. if isWhiteSpace (hd run) then [hyphen] else run) (runs name))"

text \<open>Lower-casing of the ASCII letters only, as one instance of the parameter.\<close>

definition asciiLower :: "jsstring \<Rightarrow> jsstring" where
  "asciiLower s = map (\<lambda>c. if 0x41 \<le> c \<and> c \<le> 0x5A then c + 0x20 else c) s"


section \<open>The blueprint\<close>

text \<open>
  \<open>LandingBlueprint\<close> is an imported type. The page reads \<open>hero.eyebrow\<close>, \<open>hero.title\<close>,
  \<open>hero.subtitle\<close>, \<open>hero.primaryCta\<close>, \<open>hero.secondaryCta\<close>, \<open>hero.stats\<close> (each with
  \<open>label\<close> and \<open>value\<close>), \<open>sections\<close> (each with \<open>id\<close>, \<open>label\<close>, \<open>headline\<close>, \<open>body\<close> and
  optional \<open>items\<close> with \<open>title\<close> and \<open>description\<close>), \<open>palette\<close>, \<open>gradient\<close>,
  \<open>heroLayout\<close> and \<open>generatedAt\<close>. The hero layout is the union
  \<open>"split" | "center" | "left"\<close> of \<open>FormState\<close>.
\<close>

datatype HeroLayout = Split | Center | Left

record Stat =
  stat_label :: jsstring
  stat_value :: jsstring

record Item =
  item_title :: jsstring
  item_description :: jsstring

record Section =
  section_id :: jsstring
  section_label :: jsstring
  headline :: jsstring
  body :: jsstring
  items :: "Item list option"

record Hero =
  eyebrow :: jsstring
  title :: jsstring
  subtitle :: jsstring
  primaryCta :: jsstring
  secondaryCta :: jsstring
  stats :: "Stat list"

record LandingBlueprint =
  hero :: Hero
  sections :: "Section list"
  bp_palette :: Palette
  gradient :: jsstring
  heroLayout :: HeroLayout
  generatedAt :: int

text \<open>The brief, with the fields that the page passes to \<open>composeBlueprint\<close>.\<close>

record Brief =
  productName :: jsstring
  oneLiner :: jsstring
  audience :: jsstring
  problem :: jsstring
  solution :: jsstring
  features :: "jsstring list"
  differentiator :: jsstring
  cta :: jsstring


section \<open>The composer\<close>

text \<open>
  Modelled from the spec: \<open>composeBlueprint\<close> (the specification's \<open>compose\<close>) is defined in
  \<open>lib/generator\<close>, of which page.tsx is only a caller. The definitions of this section
  follow sections 3, 4.1 and 7 of the specification: blank brief fields are replaced by
  generic placeholder phrases, an empty feature list by a fixed number of placeholder
  features; the hero, five sections in fixed order, the palette, the gradient, the layout
  and the time stamp are then put together. The clock is a parameter. Where the
  specification leaves a wording or a formula open (its section 9), the simplest
  derivation it names is taken: a prefixed headline modifier, the feature count and the
  number of words of the audience as the two statistics, a feature restated as its own
  description, a primary-to-accent diagonal as the gradient. The placeholder phrases are
  samples; only that they are not empty matters.
\<close>

definition orPlaceholder :: "jsstring \<Rightarrow> jsstring \<Rightarrow> jsstring" where
  "orPlaceholder s phrase = (if trim s = [] then phrase else s)"

definition placeholderFeatures :: "jsstring list" where
  "placeholderFeatures = [js ''Fast setup'', js ''Works with your tools'', js ''Built to scale'']"

definition orPlaceholderFeatures :: "jsstring list \<Rightarrow> jsstring list" where
  "orPlaceholderFeatures fs = (if fs = [] then placeholderFeatures else fs)"

definition normalizeBrief :: "Brief \<Rightarrow> Brief" where
  "normalizeBrief b =
     \<lparr>productName = orPlaceholder (productName b) (js ''Your product''),
      oneLiner = orPlaceholder (oneLiner b) (js ''A better way to get work done''),
      audience = orPlaceholder (audience b) (js ''modern teams''),
      problem = orPlaceholder (problem b) (js ''The tools of today slow you down''),
      solution = orPlaceholder (solution b) (js ''One place to get it done''),
      features = orPlaceholderFeatures (features b),
      differentiator = orPlaceholder (differentiator b) (js ''Built to be different''),
      cta = orPlaceholder (cta b) (js ''Get started'')\<rparr>"

text \<open>A natural number in decimal digits.\<close>

fun digits :: "nat \<Rightarrow> jsstring" where
  "digits n =
     (if n < 10 then [0x30 + of_nat n] else digits (n div 10) @ [0x30 + of_nat (n mod 10)])"

declare digits.simps [simp del]

definition wordCount :: "jsstring \<Rightarrow> nat" where
  "wordCount s = length (filter (\<lambda>run. \<not> isWhiteSpace (hd run)) (runs s))"

definition applyTone :: "ToneOption \<Rightarrow> jsstring \<Rightarrow> jsstring" where
  "applyTone tone text = headlineModifier tone @ js '' '' @ text"

definition composeHero :: "Brief \<Rightarrow> ToneOption \<Rightarrow> Hero" where
  "composeHero b tone =
     \<lparr>eyebrow = productName b @ js '' - building for '' @ audience b,
      title = applyTone tone (oneLiner b),
      subtitle = solution b,
      primaryCta = cta b,
      secondaryCta = js ''See how it works'',
      stats =
        [\<lparr>stat_label = js ''features'', stat_value = digits (length (features b))\<rparr>,
         \<lparr>stat_label = js ''words to name the audience'',
          stat_value = digits (wordCount (audience b))\<rparr>]\<rparr>"

definition featureItem :: "jsstring \<Rightarrow> Item" where
  "featureItem f = \<lparr>item_title = f, item_description = f\<rparr>"

definition composeSections :: "Brief \<Rightarrow> Section list" where
  "composeSections b =
     [\<lparr>section_id = js ''problem'', section_label = js ''Problem'',
       headline = js ''What holds back '' @ audience b,
       body = problem b, items = None\<rparr>,
      \<lparr>section_id = js ''solution'', section_label = js ''Solution'',
       headline = js ''How '' @ productName b @ js '' helps'',
       body = solution b, items = None\<rparr>,
      \<lparr>section_id = js ''features'', section_label = js ''Features'',
       headline = js ''What you get with '' @ productName b,
       body = oneLiner b, items = Some (map featureItem (features b))\<rparr>,
      \<lparr>section_id = js ''proof'', section_label = js ''Proof'',
       headline = js ''Why '' @ productName b @ js '' is different'',
       body = differentiator b, items = None\<rparr>,
      \<lparr>section_id = js ''cta'', section_label = js ''CTA'',
       headline = cta b,
       body = oneLiner b, items = None\<rparr>]"

definition composeGradient :: "Palette \<Rightarrow> jsstring" where
  "composeGradient p =
     js ''linear-gradient(135deg, '' @ role_primary p @ js '', '' @ role_accent p @ js '')''"

definition compose ::
  "int \<Rightarrow> Brief \<Rightarrow> ToneOption \<Rightarrow> ThemeOption \<Rightarrow> HeroLayout \<Rightarrow> LandingBlueprint" where
  "compose now brief tone theme layout =
     \<lparr>hero = composeHero (normalizeBrief brief) tone,
      sections = composeSections (normalizeBrief brief),
      bp_palette = palette theme,
      gradient = composeGradient (palette theme),
      heroLayout = layout,
      generatedAt = now\<rparr>"

text \<open>Every text field of a blueprint: the hero's, the statistics', the sections', the items'.\<close>

definition statTexts :: "Stat \<Rightarrow> jsstring list" where
  "statTexts s = [stat_label s, stat_value s]"

definition itemTexts :: "Item \<Rightarrow> jsstring list" where
  "itemTexts i = [item_title i, item_description i]"

definition sectionTexts :: "Section \<Rightarrow> jsstring list" where
  "sectionTexts s =
     [section_id s, section_label s, headline s, body s]
       @ (case items s of None \<Rightarrow> [] | Some is \<Rightarrow> concat (map itemTexts is))"

definition heroTexts :: "Hero \<Rightarrow> jsstring list" where
  "heroTexts h =
     [eyebrow h, title h, subtitle h, primaryCta h, secondaryCta h]
       @ concat (map statTexts (stats h))"

definition blueprintTexts :: "LandingBlueprint \<Rightarrow> jsstring list" where
  "blueprintTexts bp = heroTexts (hero bp) @ concat (map sectionTexts (sections bp))"

text \<open>A sample brief for concrete evaluation.\<close>

definition sampleBrief :: Brief where
  "sampleBrief =
     \<lparr>productName = js ''<script>alert(1)</script>'',
      oneLiner = js ''Ship \"faster\" & safer'',
      audience = js ''growth teams'',
      problem = [],
      solution = js ''  '',
      features = [],
      differentiator = js ''It reasons about your audience'',
      cta = js ''Generate my page''\<rparr>"


section \<open>The exporter\<close>

text \<open>
  Modelled from the spec: \<open>buildExportHtml\<close> (the specification's \<open>exportHtml\<close>) is defined in
  \<open>lib/generator\<close>, of which page.tsx is only a caller. The definitions of this section
  follow section 4.2 of the specification: one self-contained document with inline styles
  and no script; a hero block whose arrangement follows the layout; the sections in
  order, each as a grid of items or, without items, as a single button with a helper
  line; everything that comes out of the blueprint is passed through the escaping step
  before it is placed between tags or inside an attribute value. The document is a list of
  fragments, fixed markup or text; the tags and styles are samples.
\<close>

definition lt :: code_unit where
  "lt = 0x003C"

definition gt :: code_unit where
  "gt = 0x003E"

definition amp :: code_unit where
  "amp = 0x0026"

definition quot :: code_unit where
  "quot = 0x0022"

definition apos :: code_unit where
  "apos = 0x0027"

definition escapeUnit :: "code_unit \<Rightarrow> jsstring" where
  "escapeUnit c =
     (if c = amp then js ''&amp;''
      else if c = lt then js ''&lt;''
      else if c = gt then js ''&gt;''
      else if c = quot then js ''&quot;''
      else if c = apos then js ''&#39;''
      else [c])"

definition escapeHtml :: "jsstring \<Rightarrow> jsstring" where
  "escapeHtml s = concat (map escapeUnit s)"

datatype Fragment = Markup jsstring | Text jsstring

fun renderFragment :: "Fragment \<Rightarrow> jsstring" where
  "renderFragment (Markup m) = m"
| "renderFragment (Text t) = escapeHtml t"

definition render :: "Fragment list \<Rightarrow> jsstring" where
  "render fs = concat (map renderFragment fs)"

fun heroArrangement :: "HeroLayout \<Rightarrow> jsstring" where
  "heroArrangement Split = js ''display:flex;flex-direction:row;justify-content:space-between''"
| "heroArrangement Center = js ''display:flex;flex-direction:column;align-items:center;text-align:center''"
| "heroArrangement Left = js ''display:flex;flex-direction:column;align-items:flex-start;text-align:left''"

definition statCard :: "Stat \<Rightarrow> Fragment list" where
  "statCard s =
     [Markup (js ''<div><p>''), Text (stat_value s),
      Markup (js ''</p><p>''), Text (stat_label s),
      Markup (js ''</p></div>'')]"

definition heroBlock :: "LandingBlueprint \<Rightarrow> Fragment list" where
  "heroBlock bp =
     [Markup (js ''<header style=\"background:''), Text (gradient bp),
      Markup (js '';'' @ heroArrangement (heroLayout bp) @ js ''\"><div><p>''),
      Text (eyebrow (hero bp)),
      Markup (js ''</p><h1>''), Text (title (hero bp)),
      Markup (js ''</h1><p>''), Text (subtitle (hero bp)),
      Markup (js ''</p><a href=\"#cta\">''), Text (primaryCta (hero bp)),
      Markup (js ''</a><a href=\"#solution\">''), Text (secondaryCta (hero bp)),
      Markup (js ''</a></div><div>'')]
     @ concat (map statCard (stats (hero bp)))
     @ [Markup (js ''</div></header>'')]"

definition itemCard :: "Item \<Rightarrow> Fragment list" where
  "itemCard i =
     [Markup (js ''<div><h3>''), Text (item_title i),
      Markup (js ''</h3><p>''), Text (item_description i),
      Markup (js ''</p></div>'')]"

definition sectionBlock :: "LandingBlueprint \<Rightarrow> Section \<Rightarrow> Fragment list" where
  "sectionBlock bp s =
     [Markup (js ''<div id=\"''), Text (section_id s),
      Markup (js ''\"><p>''), Text (section_label s),
      Markup (js ''</p><h2>''), Text (headline s),
      Markup (js ''</h2><p>''), Text (body s),
      Markup (js ''</p>'')]
     @ (case items s of
          Some (i # is) \<Rightarrow>
            Markup (js ''<div style=\"display:grid\">'') # concat (map itemCard (i # is))
              @ [Markup (js ''</div>'')]
        | _ \<Rightarrow>
            [Markup (js ''<div><a href=\"#\">''), Text (primaryCta (hero bp)),
             Markup (js ''</a><p>Need a custom export? Ask the agent in chat.</p></div>'')])
     @ [Markup (js ''</div>'')]"

definition document :: "LandingBlueprint \<Rightarrow> Fragment list" where
  "document bp =
     [Markup (js ''<!DOCTYPE html><html><head><meta charset=\"utf-8\"><title>''),
      Text (title (hero bp)),
      Markup (js ''</title></head><body style=\"margin:0;background:''),
      Text (role_surface (bp_palette bp)),
      Markup (js '';color:''), Text (role_text (bp_palette bp)),
      Markup (js ''\">'')]
     @ heroBlock bp
     @ concat (map (sectionBlock bp) (sections bp))
     @ [Markup (js ''</body></html>'')]"

definition exportHtml :: "LandingBlueprint \<Rightarrow> jsstring" where
  "exportHtml bp = render (document bp)"

text \<open>
  A string is closed when no \<open><\<close> in it is followed by \<open>s\<close> or \<open>S\<close> and it does not end
  in \<open><\<close>: it opens no tag whose name starts with that letter, and cannot do so
  together with what follows it.
\<close>

fun opensS :: "jsstring \<Rightarrow> bool" where
  "opensS (a # b # cs) \<longleftrightarrow> (a = lt \<and> (b = 0x73 \<or> b = 0x53)) \<or> opensS (b # cs)"
| "opensS [a] \<longleftrightarrow> False"
| "opensS [] \<longleftrightarrow> False"

definition closed :: "jsstring \<Rightarrow> bool" where
  "closed s \<longleftrightarrow> \<not> opensS s \<and> (s = [] \<or> last s \<noteq> lt)"

text \<open>
  The characters that delimit tags and attribute values, and a decoder for the five
  entities of the escaping step, as a parser of the document reads them.
\<close>

definition significant :: "code_unit \<Rightarrow> bool" where
  "significant c \<longleftrightarrow> c = lt \<or> c = gt \<or> c = quot \<or> c = apos"

function unescapeHtml :: "jsstring \<Rightarrow> jsstring" where
  "unescapeHtml [] = []"
| "unescapeHtml (c # cs) =
     (if c = amp \<and> prefix (js ''amp;'') cs then amp # unescapeHtml (drop 4 cs)
      else if c = amp \<and> prefix (js ''lt;'') cs then lt # unescapeHtml (drop 3 cs)
      else if c = amp \<and> prefix (js ''gt;'') cs then gt # unescapeHtml (drop 3 cs)
      else if c = amp \<and> prefix (js ''quot;'') cs then quot # unescapeHtml (drop 5 cs)
      else if c = amp \<and> prefix (js ''#39;'') cs then apos # unescapeHtml (drop 4 cs)
      else c # unescapeHtml cs)"
  by pat_completeness auto
termination
  by (relation "measure length") auto

text \<open>
  The fixed markup of a fragment (none for a text), the texts of a list of fragments, and
  the delimiters that a piece of markup contributes.
\<close>

definition markupOf :: "Fragment \<Rightarrow> jsstring option" where
  "markupOf f = (case f of Markup m \<Rightarrow> Some m | Text t \<Rightarrow> None)"

definition textsOf :: "Fragment list \<Rightarrow> jsstring list" where
  "textsOf fs = concat (map (\<lambda>f. case f of Markup m \<Rightarrow> [] | Text t \<Rightarrow> [t]) fs)"

definition structural :: "jsstring option \<Rightarrow> jsstring" where
  "structural m = (case m of Some s \<Rightarrow> filter significant s | None \<Rightarrow> [])"

text \<open>
  The blueprint of the same shape (layout, number of statistics, sections and items) with
  every text, colour and gradient replaced by the empty string.
\<close>

definition eraseStat :: "Stat \<Rightarrow> Stat" where
  "eraseStat s = \<lparr>stat_label = [], stat_value = []\<rparr>"

definition eraseItem :: "Item \<Rightarrow> Item" where
  "eraseItem i = \<lparr>item_title = [], item_description = []\<rparr>"

definition eraseSection :: "Section \<Rightarrow> Section" where
  "eraseSection s =
     \<lparr>section_id = [], section_label = [], headline = [], body = [],
      items = map_option (map eraseItem) (items s)\<rparr>"

definition eraseHero :: "Hero \<Rightarrow> Hero" where
  "eraseHero h =
     \<lparr>eyebrow = [], title = [], subtitle = [], primaryCta = [], secondaryCta = [],
      stats = map eraseStat (stats h)\<rparr>"

definition eraseTexts :: "LandingBlueprint \<Rightarrow> LandingBlueprint" where
  "eraseTexts bp =
     \<lparr>hero = eraseHero (hero bp),
      sections = map eraseSection (sections bp),
      bp_palette = \<lparr>role_primary = [], role_accent = [], role_surface = [], role_text = []\<rparr>,
      gradient = [],
      heroLayout = heroLayout bp,
      generatedAt = generatedAt bp\<rparr>"

abbreviation (input) closedFragment :: "Fragment \<Rightarrow> bool" where
  "closedFragment f \<equiv> closed (renderFragment f)"


section \<open>Properties of the catalogue lookup\<close>

lemma find_unknown: "x \<notin> set (map f xs) \<Longrightarrow> find (\<lambda>t. f t = x) xs = None"
  by (induction xs) auto

lemma find_member: "find P xs = Some y \<Longrightarrow> y \<in> set xs"
  by (induction xs) (auto split: if_splits)

lemma at_first: "xs \<noteq> [] \<Longrightarrow> at xs 0 = Some (hd xs)"
  by (cases xs) (simp_all add: at_def)

text \<open>
  On an unknown identifier \<open>getTheme\<close> yields the second entry only in a catalogue whose
  first two entries are the same.
\<close>

lemma getTheme_unknown_not_second:
  assumes "y \<notin> set (map theme_id THEMES)" and "2 \<le> length THEMES" and "THEMES ! 0 \<noteq> THEMES ! 1"
  shows "getTheme THEMES y \<noteq> at THEMES 1"
  using assms by (simp add: getTheme_def find_unknown at_def)

text \<open>
  C2, as stated, fails: the claim has \<open>getTheme\<close> fall back to the second entry of
  \<open>THEMES\<close>. In a catalogue of two different themes the unknown identifier \<open>neon\<close> resolves
  to the first entry, not to the second.
\<close>

theorem getTheme_unknown_second_counterexample:
  "js ''neon'' \<notin> set (map theme_id sampleThemes) \<and>
   getTheme sampleThemes (js ''neon'') \<noteq> at sampleThemes 1 \<and>
   getTheme sampleThemes (js ''neon'') = at sampleThemes 0"
  by (simp add: sampleThemes_def js_def getTheme_def at_def)

text \<open>
  C2, amended: for an identifier that matches no entry of a non-empty catalogue, \<open>getTone\<close>
  returns the first entry of \<open>TONES\<close> and \<open>getTheme\<close> returns the first entry of \<open>THEMES\<close>;
  neither fails.
\<close>

theorem getTone_getTheme_unknown_first:
  assumes "x \<notin> set (map tone_id TONES)" and "y \<notin> set (map theme_id THEMES)"
    and "TONES \<noteq> []" and "THEMES \<noteq> []"
  shows "getTone TONES x = Some (hd TONES) \<and> getTheme THEMES y = Some (hd THEMES)"
  using assms by (simp add: getTone_def getTheme_def find_unknown at_first)

theorem getTone_getTheme_unknown_first_witness:
  "js ''loud'' \<notin> set (map tone_id sampleTones) \<and>
   js ''neon'' \<notin> set (map theme_id sampleThemes) \<and>
   sampleTones \<noteq> [] \<and> sampleThemes \<noteq> [] \<and>
   getTone sampleTones (js ''loud'') = Some (hd sampleTones) \<and>
   getTheme sampleThemes (js ''neon'') = Some (hd sampleThemes)"
proof -
  have a: "js ''loud'' \<notin> set (map tone_id sampleTones)"
    by (simp add: sampleTones_def js_def)
  have b: "js ''neon'' \<notin> set (map theme_id sampleThemes)"
    by (simp add: sampleThemes_def js_def)
  have c: "sampleTones \<noteq> []"
    by (simp add: sampleTones_def)
  have d: "sampleThemes \<noteq> []"
    by (simp add: sampleThemes_def)
  from getTone_getTheme_unknown_first [OF a b c d] a b c d show ?thesis
    by simp
qed

text \<open>
  C9: for every identifier, the empty string included, \<open>getTone\<close> returns a member of
  \<open>TONES\<close> and \<open>getTheme\<close> a member of \<open>THEMES\<close>, provided the catalogues are not empty;
  neither yields \<open>undefined\<close>.
\<close>

theorem getTone_getTheme_total:
  assumes "TONES \<noteq> []" and "THEMES \<noteq> []"
  shows "(\<exists>t \<in> set TONES. getTone TONES x = Some t) \<and>
         (\<exists>t \<in> set THEMES. getTheme THEMES y = Some t)"
proof
  show "\<exists>t \<in> set TONES. getTone TONES x = Some t"
  proof (cases "find (\<lambda>tone. tone_id tone = x) TONES")
    case None
    with assms(1) show ?thesis
      by (simp add: getTone_def at_first)
  next
    case (Some t)
    then show ?thesis
      by (auto simp: getTone_def dest: find_member)
  qed
  show "\<exists>t \<in> set THEMES. getTheme THEMES y = Some t"
  proof (cases "find (\<lambda>theme. theme_id theme = y) THEMES")
    case None
    with assms(2) show ?thesis
      by (simp add: getTheme_def at_first)
  next
    case (Some t)
    then show ?thesis
      by (auto simp: getTheme_def dest: find_member)
  qed
qed

theorem getTone_getTheme_total_witness:
  "sampleTones \<noteq> [] \<and> sampleThemes \<noteq> [] \<and>
   (\<exists>t \<in> set sampleTones. getTone sampleTones [] = Some t) \<and>
   (\<exists>t \<in> set sampleThemes. getTheme sampleThemes [] = Some t)"
proof -
  have c: "sampleTones \<noteq> []"
    by (simp add: sampleTones_def)
  have d: "sampleThemes \<noteq> []"
    by (simp add: sampleThemes_def)
  from getTone_getTheme_total [OF c d, of "[]" "[]"] c d show ?thesis
    by simp
qed


section \<open>Properties of \<open>parseFeatures\<close>\<close>

subsection \<open>The split loop\<close>

lemma split_loop_unfold:
  "split_loop p v =
     (case dropWhile (\<lambda>c. \<not> isSeparator c) v of
        [] \<Rightarrow> [p @ v]
      | _ # rest \<Rightarrow> (p @ takeWhile (\<lambda>c. \<not> isSeparator c) v) # split_loop [] rest)"
proof (induction v arbitrary: p)
  case Nil
  show ?case by simp
next
  case (Cons a v)
  show ?case
  proof (cases "isSeparator a")
    case True
    then show ?thesis by simp
  next
    case False
    have step: "split_loop p (a # v) = split_loop (p @ [a]) v"
      using False by simp
    show ?thesis
    proof (cases "dropWhile (\<lambda>c. \<not> isSeparator c) v")
      case Nil
      show ?thesis
        unfolding step Cons.IH [of "p @ [a]"] using False by (simp add: Nil)
    next
      case (Cons x rest)
      show ?thesis
        unfolding step Cons.IH [of "p @ [a]"] using False by (simp add: Cons)
    qed
  qed
qed

lemma split_entries_spec: "split v = entries_spec v"
proof (induction v rule: entries_spec.induct)
  case (1 v)
  show ?case
  proof (cases "dropWhile (\<lambda>c. \<not> isSeparator c) v")
    case Nil
    show ?thesis
      unfolding split_def
      by (subst split_loop_unfold, subst entries_spec.simps)
        (simp only: Nil list.case append_Nil)
  next
    case (Cons x rest)
    from 1 [OF Cons] have "split_loop [] rest = entries_spec rest"
      by (simp add: split_def)
    then show ?thesis
      unfolding split_def
      by (subst split_loop_unfold, subst entries_spec.simps)
        (simp only: Cons list.case append_Nil)
  qed
qed

lemma split_loop_no_separator:
  "list_all (\<lambda>c. \<not> isSeparator c) a \<Longrightarrow> split_loop p a = [p @ a]"
  by (induction a arbitrary: p) auto

lemma split_loop_append_separator:
  "list_all (\<lambda>c. \<not> isSeparator c) a \<Longrightarrow> isSeparator c \<Longrightarrow>
   split_loop p (a @ c # b) = (p @ a) # split_loop [] b"
  by (induction a arbitrary: p) auto

lemma split_loop_pieces:
  "list_all (\<lambda>c. \<not> isSeparator c) p \<Longrightarrow> e \<in> set (split_loop p v) \<Longrightarrow>
   list_all (\<lambda>c. \<not> isSeparator c) e"
proof (induction v arbitrary: p)
  case Nil
  then show ?case by simp
next
  case (Cons a v)
  show ?case
  proof (cases "isSeparator a")
    case True
    with Cons.prems have "e = p \<or> e \<in> set (split_loop [] v)"
      by simp
    then show ?thesis
    proof
      assume "e = p"
      with Cons.prems show ?thesis by simp
    next
      assume "e \<in> set (split_loop [] v)"
      with Cons.IH [of "[]"] show ?thesis by simp
    qed
  next
    case False
    with Cons.prems have "e \<in> set (split_loop (p @ [a]) v)"
      by simp
    moreover from False Cons.prems have "list_all (\<lambda>c. \<not> isSeparator c) (p @ [a])"
      by simp
    ultimately show ?thesis
      using Cons.IH [of "p @ [a]"] by simp
  qed
qed

text \<open>A string with \<open>n\<close> separators has \<open>n + 1\<close> pieces.\<close>

lemma length_split_loop: "length (split_loop p v) = Suc (length (filter isSeparator v))"
  by (induction v arbitrary: p) simp_all

subsection \<open>Trimming\<close>


lemma trim_subset: "set (trim s) \<subseteq> set s"
  by (auto simp: trim_def dest!: set_dropWhileD)

lemma last_dropWhile_keep: "dropWhile P xs \<noteq> [] \<Longrightarrow> last (dropWhile P xs) = last xs"
  by (induction xs) (auto split: if_splits)

lemma trim_ends:
  assumes "trim s \<noteq> []"
  shows "\<not> isWhiteSpace (hd (trim s)) \<and> \<not> isWhiteSpace (last (trim s))"
proof -
  define d where "d = dropWhile isWhiteSpace s"
  define r where "r = dropWhile isWhiteSpace (rev d)"
  have t: "trim s = rev r"
    by (simp add: trim_def d_def r_def)
  with assms have r: "r \<noteq> []"
    by simp
  then have d: "d \<noteq> []"
    by (auto simp: r_def)
  have "\<not> isWhiteSpace (hd r)"
    using r unfolding r_def by (rule hd_dropWhile)
  then have 1: "\<not> isWhiteSpace (last (trim s))"
    using r by (simp add: t last_rev)
  have "last r = last (rev d)"
    using r unfolding r_def by (rule last_dropWhile_keep)
  then have "hd (trim s) = hd d"
    using r d by (simp add: t hd_rev last_rev)
  moreover have "\<not> isWhiteSpace (hd d)"
    using d unfolding d_def by (rule hd_dropWhile)
  ultimately show ?thesis
    using 1 by simp
qed

lemma dropWhile_hd_id: "xs \<noteq> [] \<Longrightarrow> \<not> P (hd xs) \<Longrightarrow> dropWhile P xs = xs"
  by (cases xs) auto

lemma trim_normalized: "normalized e \<Longrightarrow> trim e = e"
  by (simp add: normalized_def trim_def dropWhile_hd_id hd_rev)

subsection \<open>Entries of \<open>parseFeatures\<close>\<close>

lemma parseFeatures_normalized:
  assumes "e \<in> set (parseFeatures v)"
  shows "normalized e"
proof -
  from assms obtain x where x: "x \<in> set (split_loop [] v)" and e: "e = trim x" and ne: "e \<noteq> []"
    by (auto simp: parseFeatures_def split_def)
  from x have "list_all (\<lambda>c. \<not> isSeparator c) x"
    by (rule split_loop_pieces [rotated]) simp
  then have "list_all (\<lambda>c. \<not> isSeparator c) e"
    using trim_subset [of x] by (auto simp: e list_all_iff)
  with ne trim_ends [of x] show ?thesis
    by (simp add: normalized_def e)
qed

lemma newline_separator: "isSeparator newline"
  by (simp add: isSeparator_def)

lemma split_join:
  "list_all normalized es \<Longrightarrow> es \<noteq> [] \<Longrightarrow> split_loop [] (join [newline] es) = es"
proof (induction "[newline]" es rule: join.induct)
  case 1
  then show ?case by simp
next
  case (2 x)
  then show ?case
    by (simp add: normalized_def split_loop_no_separator)
next
  case (3 x y ys)
  then show ?case
    by (simp add: normalized_def split_loop_append_separator newline_separator)
qed

lemma parseFeatures_join:
  assumes "list_all normalized es"
  shows "parseFeatures (join [newline] es) = es"
proof (cases "es = []")
  case True
  then show ?thesis
    by (simp add: parseFeatures_def split_def trim_def)
next
  case False
  with assms have "split (join [newline] es) = es"
    by (simp add: split_def split_join)
  moreover from assms have "map trim es = es"
    by (induction es) (simp_all add: trim_normalized)
  moreover from assms have "filter (\<lambda>e. e \<noteq> []) es = es"
    by (induction es) (simp_all add: normalized_def)
  ultimately show ?thesis
    by (simp add: parseFeatures_def)
qed

text \<open>
  C3: for every raw feature text, the feature list is the text split at newlines and
  commas, each entry trimmed, the empty entries dropped, in the order of the text; and the
  text \<open>Fast sync, Offline mode\<close>, a newline, \<open>Realtime alerts\<close> parses to the three entries
  \<open>Fast sync\<close>, \<open>Offline mode\<close>, \<open>Realtime alerts\<close> in this order.
\<close>

theorem parseFeatures_split_trim_drop:
  "parseFeatures v = parseFeatures_spec v \<and>
   parseFeatures (js ''Fast sync, Offline mode\<newline>Realtime alerts'') =
     [js ''Fast sync'', js ''Offline mode'', js ''Realtime alerts'']"
proof
  show "parseFeatures v = parseFeatures_spec v"
    by (simp add: parseFeatures_def parseFeatures_spec_def split_entries_spec)
  show "parseFeatures (js ''Fast sync, Offline mode\<newline>Realtime alerts'') =
     [js ''Fast sync'', js ''Offline mode'', js ''Realtime alerts'']"
    by (simp add: parseFeatures_def split_def js_def isSeparator_def isWhiteSpace_def trim_def
        newline_def comma_def)
qed

theorem parseFeatures_split_trim_drop_witness:
  "parseFeatures_spec (js '',  a ,,b c\<newline> '') = [js ''a'', js ''b c''] \<and>
   parseFeatures (js '',  a ,,b c\<newline> '') = [js ''a'', js ''b c'']"
proof -
  have "parseFeatures (js '',  a ,,b c\<newline> '') = [js ''a'', js ''b c'']"
    by (simp add: parseFeatures_def split_def js_def isSeparator_def isWhiteSpace_def trim_def
        newline_def comma_def)
  with parseFeatures_split_trim_drop [of "js '',  a ,,b c\<newline> ''"] show ?thesis
    by simp
qed

text \<open>
  C10: every entry of \<open>parseFeatures s\<close> is non-empty, neither starts nor ends with white
  space and holds neither a newline nor a comma; joining the entries with newlines and
  parsing again gives the same list.
\<close>

theorem parseFeatures_stable:
  "(\<forall>e \<in> set (parseFeatures s).
      e \<noteq> [] \<and> \<not> isWhiteSpace (hd e) \<and> \<not> isWhiteSpace (last e) \<and>
      newline \<notin> set e \<and> comma \<notin> set e) \<and>
   parseFeatures (join [newline] (parseFeatures s)) = parseFeatures s"
proof
  show "\<forall>e \<in> set (parseFeatures s).
      e \<noteq> [] \<and> \<not> isWhiteSpace (hd e) \<and> \<not> isWhiteSpace (last e) \<and>
      newline \<notin> set e \<and> comma \<notin> set e"
    using parseFeatures_normalized [of _ s]
    by (auto simp: normalized_def list_all_iff isSeparator_def)
  show "parseFeatures (join [newline] (parseFeatures s)) = parseFeatures s"
    by (rule parseFeatures_join) (simp add: list_all_iff parseFeatures_normalized)
qed

theorem parseFeatures_stable_witness:
  "js ''b c'' \<in> set (parseFeatures (js '' a ,,b c\<newline> '')) \<and>
   parseFeatures (js '' a ,,b c\<newline> '') = [js ''a'', js ''b c''] \<and>
   join [newline] (parseFeatures (js '' a ,,b c\<newline> '')) = js ''a\<newline>b c'' \<and>
   parseFeatures (js ''a\<newline>b c'') = [js ''a'', js ''b c'']"
proof -
  have v: "parseFeatures (js '' a ,,b c\<newline> '') = [js ''a'', js ''b c'']"
    by (simp add: parseFeatures_def split_def js_def isSeparator_def isWhiteSpace_def trim_def
        newline_def comma_def)
  have j: "join [newline] [js ''a'', js ''b c''] = js ''a\<newline>b c''"
    by (simp add: js_def newline_def)
  from parseFeatures_stable [of "js '' a ,,b c\<newline> ''"] v j show ?thesis
    by simp
qed


section \<open>Properties of \<open>handleDownload\<close>\<close>

subsection \<open>The runs of a name\<close>

lemma concat_runs: "concat (runs s) = s"
  by (induction s rule: runs.induct) simp_all

lemma runs_homogeneous:
  "r \<in> set (runs s) \<Longrightarrow> r \<noteq> [] \<and> list_all (\<lambda>d. isWhiteSpace d = isWhiteSpace (hd r)) r"
proof (induction s rule: runs.induct)
  case 1
  then show ?case by simp
next
  case (2 c cs)
  let ?same = "\<lambda>d. isWhiteSpace d = isWhiteSpace c"
  from "2.prems" have "r = c # takeWhile ?same cs \<or> r \<in> set (runs (dropWhile ?same cs))"
    by simp
  then show ?case
  proof
    assume r: "r = c # takeWhile ?same cs"
    have "list_all ?same (takeWhile ?same cs)"
      unfolding list_all_iff by (blast dest: set_takeWhileD)
    then show ?thesis
      unfolding r by simp
  next
    assume "r \<in> set (runs (dropWhile ?same cs))"
    then show ?thesis
      by (rule "2.IH")
  qed
qed

lemma runs_maximal: "alternating (runs s)"
proof (induction s rule: runs.induct)
  case 1
  show ?case by simp
next
  case (2 c cs)
  let ?rest = "dropWhile (\<lambda>d. isWhiteSpace d = isWhiteSpace c) cs"
  show ?case
  proof (cases ?rest)
    case Nil
    show ?thesis
      by (simp add: Nil)
  next
    case (Cons x xs)
    from 2 have IH: "alternating (runs (x # xs))"
      unfolding Cons .
    have "\<not> (isWhiteSpace (hd ?rest) = isWhiteSpace c)"
      by (rule hd_dropWhile) (simp add: Cons)
    then have "isWhiteSpace x \<noteq> isWhiteSpace c"
      by (simp add: Cons)
    with IH show ?thesis
      by (simp add: Cons)
  qed
qed

subsection \<open>The replacement\<close>

lemma replaceWhiteSpace_copy:
  "list_all (\<lambda>d. \<not> isWhiteSpace d) a \<Longrightarrow>
   replaceWhiteSpace (a @ b) = a @ replaceWhiteSpace b"
  by (induction a) simp_all

lemma replaceWhiteSpace_runs: "replaceWhiteSpace name = hyphenate_runs name"
proof (induction name rule: runs.induct)
  case 1
  show ?case
    by (simp add: hyphenate_runs_def)
next
  case (2 c cs)
  let ?same = "\<lambda>d. isWhiteSpace d = isWhiteSpace c"
  let ?other = "\<lambda>d. \<not> isWhiteSpace d"
  from 2 have IH: "replaceWhiteSpace (dropWhile ?same cs) = hyphenate_runs (dropWhile ?same cs)" .
  show ?case
  proof (cases "isWhiteSpace c")
    case True
    then have "?same = isWhiteSpace"
      by auto
    with True IH show ?thesis
      by (simp add: hyphenate_runs_def)
  next
    case False
    then have same: "?same = ?other"
      by auto
    have "list_all ?other (c # takeWhile ?other cs)"
      using False by (auto simp: list_all_iff dest: set_takeWhileD)
    then have "replaceWhiteSpace ((c # takeWhile ?other cs) @ dropWhile ?other cs) =
        (c # takeWhile ?other cs) @ replaceWhiteSpace (dropWhile ?other cs)"
      by (rule replaceWhiteSpace_copy)
    then have "replaceWhiteSpace (c # cs) =
        (c # takeWhile ?other cs) @ replaceWhiteSpace (dropWhile ?other cs)"
      by simp
    with False IH show ?thesis
      unfolding same by (simp add: hyphenate_runs_def same)
  qed
qed

lemma replaceWhiteSpace_clean: "list_all (\<lambda>d. \<not> isWhiteSpace d) (replaceWhiteSpace s)"
proof (induction s rule: replaceWhiteSpace.induct)
  case 1
  show ?case by simp
next
  case (2 c cs)
  have "\<not> isWhiteSpace hyphen"
    by (simp add: isWhiteSpace_def hyphen_def)
  with 2 show ?case by simp
qed

text \<open>
  C8: for every product name the download is a file whose name is the product name with
  every maximal run of white space replaced by one hyphen, lower-cased, followed by
  \<open>-landing.html\<close>, so a \<open>.html\<close> file; its content is the exported document, typed
  \<open>text/html;charset=utf-8\<close>.
\<close>

theorem handleDownload_file:
  "download (handleDownload toLowerCase exportedHtml name) =
     toLowerCase (hyphenate_runs name) @ js ''-landing.html'' \<and>
   suffix (js ''.html'') (download (handleDownload toLowerCase exportedHtml name)) \<and>
   blobParts (handleDownload toLowerCase exportedHtml name) = [exportedHtml] \<and>
   blobType (handleDownload toLowerCase exportedHtml name) =
     js ''text/html;charset=utf-8''"
proof -
  have "js ''-landing.html'' = js ''-landing'' @ js ''.html''"
    by (simp add: js_def)
  then have "suffix (js ''.html'')
      (toLowerCase (hyphenate_runs name) @ js ''-landing.html'')"
    by (simp add: suffix_def)
  then show ?thesis
    by (simp add: handleDownload_def replaceWhiteSpace_runs)
qed

theorem handleDownload_file_witness:
  "download (handleDownload asciiLower (js ''<p>x</p>'') (js ''My  Cool\<newline> App'')) =
     js ''my-cool-app-landing.html''"
proof -
  have "asciiLower (hyphenate_runs (js ''My  Cool\<newline> App'')) = js ''my-cool-app''"
    by code_simp
  with handleDownload_file [of asciiLower "js ''<p>x</p>''" "js ''My  Cool\<newline> App''"]
  show ?thesis
    by (simp add: js_def)
qed


section \<open>Properties of the composer\<close>










text \<open>
  C4: the blueprint that \<open>compose\<close> returns has exactly five sections, with the same
  identifiers in the same order problem, solution, features, proof, cta, whatever the
  brief, the tone, the theme and the layout.
\<close>

theorem compose_five_sections:
  "length (sections (compose now brief tone theme layout)) = 5 \<and>
   map section_id (sections (compose now brief tone theme layout)) =
     [js ''problem'', js ''solution'', js ''features'', js ''proof'', js ''cta''] \<and>
   map section_label (sections (compose now brief tone theme layout)) =
     [js ''Problem'', js ''Solution'', js ''Features'', js ''Proof'', js ''CTA'']"
  by (simp add: compose_def composeSections_def)

theorem compose_five_sections_witness:
  "map section_label
     (sections (compose 0 sampleBrief (hd sampleTones) (hd sampleThemes) Left)) =
     [js ''Problem'', js ''Solution'', js ''Features'', js ''Proof'', js ''CTA'']"
  using compose_five_sections [of 0 sampleBrief "hd sampleTones" "hd sampleThemes" Left]
  by simp




text \<open>
  C6: \<open>compose\<close> is a function of the brief, the tone, the theme, the layout and the clock:
  two compositions of the same inputs at different clock times differ in \<open>generatedAt\<close>
  only, so at the same clock time they are equal in every field.
\<close>

theorem compose_clock_only:
  "compose t1 brief tone theme layout =
     (compose t2 brief tone theme layout)\<lparr>generatedAt := t1\<rparr> \<and>
   generatedAt (compose t1 brief tone theme layout) = t1"
  by (simp add: compose_def)

theorem compose_clock_only_witness:
  "compose 5 sampleBrief (hd sampleTones) (hd sampleThemes) Split =
     (compose 7 sampleBrief (hd sampleTones) (hd sampleThemes) Split)\<lparr>generatedAt := 5\<rparr>"
  using compose_clock_only [of 5 sampleBrief "hd sampleTones" "hd sampleThemes" Split 7]
  by simp

text \<open>
  C7: for each of the layouts split, center and left, the \<open>heroLayout\<close> field of the
  blueprint that \<open>compose\<close> returns is the layout passed in.
\<close>

theorem compose_layout_passthrough:
  "heroLayout (compose now brief tone theme Split) = Split \<and>
   heroLayout (compose now brief tone theme Center) = Center \<and>
   heroLayout (compose now brief tone theme Left) = Left \<and>
   heroLayout (compose now brief tone theme layout) = layout"
  by (simp add: compose_def)

theorem compose_layout_passthrough_witness:
  "heroLayout (compose 0 sampleBrief (hd sampleTones) (hd sampleThemes) Center) = Center"
  using compose_layout_passthrough [of 0 sampleBrief "hd sampleTones" "hd sampleThemes" Center]
  by simp


section \<open>Properties of the exporter\<close>

subsection \<open>Escaping\<close>

lemma escapeUnit_plain: "set (escapeUnit c) \<inter> {lt, gt, quot, apos} = {}"
  by (simp add: escapeUnit_def js_def lt_def gt_def quot_def apos_def amp_def)

lemma escapeHtml_plain: "set (escapeHtml t) \<inter> {lt, gt, quot, apos} = {}"
  using escapeUnit_plain by (induction t) (auto simp: escapeHtml_def)

lemma escapeHtml_append: "escapeHtml (a @ b) = escapeHtml a @ escapeHtml b"
  by (simp add: escapeHtml_def)

subsection \<open>Closed strings\<close>

lemma opensS_needs_lt: "lt \<notin> set s \<Longrightarrow> \<not> opensS s"
  by (induction s rule: opensS.induct) auto

lemma opensS_append:
  "\<not> opensS a \<Longrightarrow> \<not> opensS b \<Longrightarrow> a = [] \<or> last a \<noteq> lt \<Longrightarrow> \<not> opensS (a @ b)"
proof (induction a rule: opensS.induct)
  case (1 a b cs)
  then show ?case by auto
next
  case (2 a)
  then show ?case by (cases b) auto
next
  case 3
  then show ?case by simp
qed

lemma closed_append:
  assumes "closed a" and "closed b"
  shows "closed (a @ b)"
proof -
  from assms have "\<not> opensS (a @ b)"
    by (simp add: closed_def opensS_append)
  moreover have "a @ b = [] \<or> last (a @ b) \<noteq> lt"
    using assms by (cases "b = []") (simp_all add: closed_def)
  ultimately show ?thesis
    by (simp add: closed_def)
qed

lemma closed_concat: "list_all closed xs \<Longrightarrow> closed (concat xs)"
proof (induction xs)
  case Nil
  show ?case
    by (simp add: closed_def)
next
  case (Cons x xs)
  then show ?case
    by (simp add: closed_append)
qed

lemma closed_escapeHtml: "closed (escapeHtml t)"
proof -
  have "lt \<notin> set (escapeHtml t)"
    using escapeHtml_plain [of t] by auto
  moreover from this have "escapeHtml t = [] \<or> last (escapeHtml t) \<noteq> lt"
    by (metis last_in_set)
  ultimately show ?thesis
    by (simp add: closed_def opensS_needs_lt)
qed

lemma opensS_later: "opensS b \<Longrightarrow> opensS (a @ b)"
proof (induction a)
  case Nil
  then show ?case by simp
next
  case (Cons x a)
  then have "opensS (a @ b)"
    by simp
  then show ?case
    by (cases "a @ b") auto
qed

lemma opensS_sublist:
  assumes "sublist (lt # c # rest) s" and "c = 0x73 \<or> c = 0x53"
  shows "opensS s"
proof -
  from assms(1) obtain ps ss where "s = ps @ (lt # c # rest) @ ss"
    by (auto simp: sublist_def)
  moreover from assms(2) have "opensS ((lt # c # rest) @ ss)"
    by auto
  ultimately show ?thesis
    by (simp only: opensS_later)
qed

subsection \<open>Rendering\<close>

lemma render_closed: "list_all closedFragment fs \<Longrightarrow> closed (render fs)"
  unfolding render_def by (rule closed_concat) (simp add: list_all_iff)

lemma sublist_render: "f \<in> set fs \<Longrightarrow> sublist (renderFragment f) (render fs)"
proof -
  assume "f \<in> set fs"
  then obtain a b where "fs = a @ f # b"
    by (auto dest: split_list)
  then have "render fs = render a @ renderFragment f @ render b"
    by (simp add: render_def)
  then show ?thesis
    by (auto simp: sublist_def)
qed

lemma closed_literals:
  "closed (js ''<div><p>'')" "closed (js ''</p><p>'')" "closed (js ''</p></div>'')"
  "closed (js ''<header style=\"background:'')"
  "closed (js ''</p><h1>'')" "closed (js ''</h1><p>'')"
  "closed (js ''</p><a href=\"#cta\">'')" "closed (js ''</a><a href=\"#solution\">'')"
  "closed (js ''</a></div><div>'')" "closed (js ''</div></header>'')"
  "closed (js ''<div><h3>'')" "closed (js ''</h3><p>'')"
  "closed (js ''<div id=\"'')" "closed (js ''\"><p>'')" "closed (js ''</p><h2>'')"
  "closed (js ''</h2><p>'')" "closed (js ''</p>'')"
  "closed (js ''<div style=\"display:grid\">'')" "closed (js ''</div>'')"
  "closed (js ''<div><a href=\"#\">'')"
  "closed (js ''</a><p>Need a custom export? Ask the agent in chat.</p></div>'')"
  "closed (js ''<!DOCTYPE html><html><head><meta charset=\"utf-8\"><title>'')"
  "closed (js ''</title></head><body style=\"margin:0;background:'')"
  "closed (js '';color:'')" "closed (js ''\">'')" "closed (js ''</body></html>'')"
  by (simp_all add: closed_def js_def lt_def)

lemma closed_arrangement: "closed (js '';'' @ heroArrangement l @ js ''\"><div><p>'')"
  by (cases l) (simp_all add: closed_def js_def lt_def)

lemma statCard_closed: "list_all closedFragment (statCard s)"
  by (simp add: statCard_def closed_literals closed_escapeHtml)

lemma itemCard_closed: "list_all closedFragment (itemCard i)"
  by (simp add: itemCard_def closed_literals closed_escapeHtml)

lemma concat_map_closed:
  "(\<And>x. list_all closedFragment (f x)) \<Longrightarrow> list_all closedFragment (concat (map f xs))"
  by (induction xs) simp_all

lemma heroBlock_closed: "list_all closedFragment (heroBlock bp)"
  by (simp add: heroBlock_def closed_literals closed_arrangement closed_escapeHtml
      concat_map_closed statCard_closed)

lemma sectionBlock_closed: "list_all closedFragment (sectionBlock bp s)"
  by (simp add: sectionBlock_def closed_literals closed_escapeHtml
      concat_map_closed itemCard_closed split: option.splits list.splits)

lemma document_closed: "list_all closedFragment (document bp)"
  by (simp add: document_def closed_literals closed_escapeHtml
      concat_map_closed heroBlock_closed sectionBlock_closed)

lemma exportHtml_closed: "closed (exportHtml bp)"
  unfolding exportHtml_def by (rule render_closed) (rule document_closed)

lemma exportHtml_no_script: "\<not> sublist (js ''<script'') (exportHtml bp)"
proof
  assume "sublist (js ''<script'') (exportHtml bp)"
  then have "sublist (lt # 0x73 # js ''cript'') (exportHtml bp)"
    by (simp add: js_def lt_def)
  then have "opensS (exportHtml bp)"
    by (rule opensS_sublist) simp
  with exportHtml_closed [of bp] show False
    by (simp add: closed_def)
qed

subsection \<open>Texts in the document\<close>

lemma hero_text_embedded: "t \<in> set (heroTexts (hero bp)) \<Longrightarrow> Text t \<in> set (heroBlock bp)"
  by (auto simp: heroTexts_def heroBlock_def statTexts_def statCard_def)

lemma section_text_embedded:
  "t \<in> set (sectionTexts s) \<Longrightarrow> Text t \<in> set (sectionBlock bp s)"
  by (auto simp: sectionTexts_def sectionBlock_def itemTexts_def itemCard_def
      split: option.splits list.splits)

lemma text_embedded: "t \<in> set (blueprintTexts bp) \<Longrightarrow> Text t \<in> set (document bp)"
  by (auto simp: blueprintTexts_def document_def
      dest: hero_text_embedded section_text_embedded)

lemma text_escaped:
  "t \<in> set (blueprintTexts bp) \<Longrightarrow> sublist (escapeHtml t) (exportHtml bp)"
  using sublist_render [OF text_embedded, of t bp] by (simp add: exportHtml_def)

lemma sublist_escaped_name:
  assumes "trim p \<noteq> []"
  shows "sublist (escapeHtml p)
           (exportHtml (compose now (brief\<lparr>productName := p\<rparr>) tone theme layout))"
proof -
  let ?bp = "compose now (brief\<lparr>productName := p\<rparr>) tone theme layout"
  let ?e = "p @ js '' - building for '' @ audience (normalizeBrief (brief\<lparr>productName := p\<rparr>))"
  have "eyebrow (hero ?bp) = ?e"
    using assms by (simp add: compose_def composeHero_def normalizeBrief_def orPlaceholder_def)
  then have "?e \<in> set (blueprintTexts ?bp)"
    by (simp add: blueprintTexts_def heroTexts_def)
  then have "sublist (escapeHtml ?e) (exportHtml ?bp)"
    by (rule text_escaped)
  moreover have "sublist (escapeHtml p) (escapeHtml ?e)"
    by (simp add: escapeHtml_append)
  ultimately show ?thesis
    by (rule sublist_order.order.trans [rotated])
qed

subsection \<open>Decoding, structure and text slots\<close>

lemma unescape_unit: "unescapeHtml (escapeUnit c @ rest) = c # unescapeHtml rest"
  by (simp add: escapeUnit_def js_def amp_def lt_def gt_def quot_def apos_def)

lemma unescape_escape: "unescapeHtml (escapeHtml s) = s"
proof (induction s)
  case Nil
  show ?case by (simp add: escapeHtml_def)
next
  case (Cons c s)
  have "escapeHtml (c # s) = escapeUnit c @ escapeHtml s"
    by (simp add: escapeHtml_def)
  with Cons show ?case
    by (simp only: unescape_unit)
qed

lemma filter_significant_escapeHtml: "filter significant (escapeHtml t) = []"
  using escapeHtml_plain [of t] by (auto simp: filter_empty_conv significant_def)

lemma filter_significant_render:
  "filter significant (render fs) = concat (map structural (map markupOf fs))"
proof (induction fs)
  case Nil
  show ?case by (simp add: render_def)
next
  case (Cons f fs)
  then show ?case
    by (cases f) (simp_all add: render_def markupOf_def structural_def filter_significant_escapeHtml)
qed

lemma statCard_shape: "map markupOf (statCard (eraseStat s)) = map markupOf (statCard s)"
  by (simp add: statCard_def markupOf_def)

lemma itemCard_shape: "map markupOf (itemCard (eraseItem i)) = map markupOf (itemCard i)"
  by (simp add: itemCard_def markupOf_def)

lemma cards_shape:
  "(\<And>x. map markupOf (f (e x)) = map markupOf (f x)) \<Longrightarrow>
   map markupOf (concat (map f (map e xs))) = map markupOf (concat (map f xs))"
  by (induction xs) simp_all

lemma heroBlock_shape: "map markupOf (heroBlock (eraseTexts bp)) = map markupOf (heroBlock bp)"
  using cards_shape [of statCard eraseStat "stats (hero bp)", OF statCard_shape]
  by (simp add: heroBlock_def eraseTexts_def eraseHero_def markupOf_def)

lemma sectionBlock_shape:
  "map markupOf (sectionBlock (eraseTexts bp) (eraseSection s)) = map markupOf (sectionBlock bp s)"
proof (cases "items s")
  case None
  then show ?thesis
    by (simp add: sectionBlock_def eraseSection_def markupOf_def)
next
  case (Some its)
  show ?thesis
  proof (cases its)
    case Nil
    with Some show ?thesis
      by (simp add: sectionBlock_def eraseSection_def markupOf_def)
  next
    case (Cons i js)
    have "map markupOf (concat (map itemCard (map eraseItem (i # js)))) =
        map markupOf (concat (map itemCard (i # js)))"
      by (rule cards_shape) (rule itemCard_shape)
    with Some Cons show ?thesis
      by (simp add: sectionBlock_def eraseSection_def markupOf_def)
  qed
qed

lemma sections_shape:
  "map markupOf (concat (map (sectionBlock (eraseTexts bp) \<circ> eraseSection) ss)) =
   map markupOf (concat (map (sectionBlock bp) ss))"
  by (induction ss) (simp_all add: sectionBlock_shape)

lemma document_shape: "map markupOf (document (eraseTexts bp)) = map markupOf (document bp)"
proof -
  have "sections (eraseTexts bp) = map eraseSection (sections bp)"
    by (simp add: eraseTexts_def)
  then show ?thesis
    by (simp add: document_def heroBlock_shape sections_shape) (simp add: markupOf_def)
qed

lemma exportHtml_structure:
  "filter significant (exportHtml bp) = filter significant (exportHtml (eraseTexts bp))"
  by (simp add: exportHtml_def filter_significant_render document_shape)

lemma exportHtml_rendering:
  "exportHtml bp = concat (map (\<lambda>f. case f of Markup m \<Rightarrow> m | Text t \<Rightarrow> escapeHtml t) (document bp))"
proof -
  have "renderFragment = (\<lambda>f. case f of Markup m \<Rightarrow> m | Text t \<Rightarrow> escapeHtml t)"
    by (rule ext) (simp split: Fragment.split)
  then show ?thesis
    by (simp add: exportHtml_def render_def)
qed

lemma textsOf_append: "textsOf (a @ b) = textsOf a @ textsOf b"
  by (simp add: textsOf_def)

lemma textsOf_simps:
  "textsOf [] = []" "textsOf (Markup m # fs) = textsOf fs" "textsOf (Text t # fs) = t # textsOf fs"
  by (simp_all add: textsOf_def)

lemma textsOf_concat: "textsOf (concat xs) = concat (map textsOf xs)"
  by (induction xs) (simp_all add: textsOf_append textsOf_simps)

lemma statCard_texts: "textsOf (statCard s) = [stat_value s, stat_label s]"
  by (simp add: statCard_def textsOf_simps)

lemma itemCard_texts: "textsOf (itemCard i) = [item_title i, item_description i]"
  by (simp add: itemCard_def textsOf_simps)

lemma heroBlock_texts: "set (textsOf (heroBlock bp)) = insert (gradient bp) (set (heroTexts (hero bp)))"
  by (auto simp: heroBlock_def textsOf_simps textsOf_append textsOf_concat heroTexts_def
      statTexts_def statCard_texts comp_def)

lemma sectionBlock_texts:
  "set (textsOf (sectionBlock bp s)) \<subseteq> insert (primaryCta (hero bp)) (set (sectionTexts s))"
  by (auto simp: sectionBlock_def textsOf_simps textsOf_append textsOf_concat sectionTexts_def
      itemTexts_def itemCard_texts comp_def split: option.splits list.splits)

lemma textsOf_member: "t \<in> set (textsOf fs) \<longleftrightarrow> Text t \<in> set fs"
proof (induction fs)
  case Nil
  show ?case by (simp add: textsOf_simps)
next
  case (Cons f fs)
  then show ?case
    by (cases f) (auto simp: textsOf_simps)
qed

lemma document_texts:
  "set (textsOf (document bp)) =
     set (blueprintTexts bp) \<union>
       {gradient bp, role_surface (bp_palette bp), role_text (bp_palette bp)}"
proof
  show "set (textsOf (document bp)) \<subseteq> set (blueprintTexts bp) \<union>
       {gradient bp, role_surface (bp_palette bp), role_text (bp_palette bp)}"
    using sectionBlock_texts [of bp]
    by (auto simp: document_def textsOf_simps textsOf_append textsOf_concat heroBlock_texts
        blueprintTexts_def heroTexts_def)
next
  have "Text (gradient bp) \<in> set (heroBlock bp)"
    by (simp add: heroBlock_def)
  then have "Text (gradient bp) \<in> set (document bp)"
    and "Text (role_surface (bp_palette bp)) \<in> set (document bp)"
    and "Text (role_text (bp_palette bp)) \<in> set (document bp)"
    by (simp_all add: document_def)
  then show "set (blueprintTexts bp) \<union>
       {gradient bp, role_surface (bp_palette bp), role_text (bp_palette bp)}
       \<subseteq> set (textsOf (document bp))"
    by (auto simp: textsOf_member dest: text_embedded)
qed

text \<open>
  C1: for every blueprint, \<open>exportHtml\<close> embeds its text fields (titles, bodies, item titles
  and descriptions, button labels) in escaped form only. The document is its fragments in
  order, a piece of markup as it is and a text escaped; the markup is that of the blueprint
  with all texts erased, so no text reaches it; the texts are the text fields of the
  blueprint, the gradient and two colours. Hence the delimiters \<open><\<close>, \<open>>\<close>, \<open>"\<close>, \<open>'\<close> of
  the document are those of the erased blueprint's document. The escaped form of a text
  holds no delimiter and decodes to the text. Each text field is in the document in
  escaped form; the document opens no tag whose name starts with \<open>s\<close> or \<open>S\<close>, so it
  holds no \<open><script\<close>, whatever the texts are. In particular a product name
  \<open><script>alert(1)</script>\<close> is in the document as
  \<open>&lt;script&gt;alert(1)&lt;/script&gt;\<close>.
\<close>

theorem exportHtml_escapes:
  "exportHtml bp =
     concat (map (\<lambda>f. case f of Markup m \<Rightarrow> m | Text t \<Rightarrow> escapeHtml t) (document bp)) \<and>
   map markupOf (document bp) = map markupOf (document (eraseTexts bp)) \<and>
   set (textsOf (document bp)) =
     set (blueprintTexts bp) \<union>
       {gradient bp, role_surface (bp_palette bp), role_text (bp_palette bp)} \<and>
   filter significant (exportHtml bp) = filter significant (exportHtml (eraseTexts bp)) \<and>
   filter significant (escapeHtml s) = [] \<and>
   unescapeHtml (escapeHtml s) = s \<and>
   (\<forall>t \<in> set (blueprintTexts bp). sublist (escapeHtml t) (exportHtml bp)) \<and>
   set (escapeHtml s) \<inter> {lt, gt, quot, apos} = {} \<and>
   \<not> opensS (exportHtml bp) \<and>
   \<not> sublist (js ''<script'') (exportHtml bp) \<and>
   sublist (js ''&lt;script&gt;alert(1)&lt;/script&gt;'')
     (exportHtml (compose now (brief\<lparr>productName := js ''<script>alert(1)</script>''\<rparr>)
        tone theme layout))"
proof -
  have "trim (js ''<script>alert(1)</script>'') \<noteq> []"
    by (simp add: trim_def js_def isWhiteSpace_def)
  then have "sublist (escapeHtml (js ''<script>alert(1)</script>''))
     (exportHtml (compose now (brief\<lparr>productName := js ''<script>alert(1)</script>''\<rparr>)
        tone theme layout))"
    by (rule sublist_escaped_name)
  moreover have "escapeHtml (js ''<script>alert(1)</script>'') =
      js ''&lt;script&gt;alert(1)&lt;/script&gt;''"
    by (simp add: escapeHtml_def escapeUnit_def js_def lt_def gt_def amp_def quot_def apos_def)
  ultimately have example: "sublist (js ''&lt;script&gt;alert(1)&lt;/script&gt;'')
     (exportHtml (compose now (brief\<lparr>productName := js ''<script>alert(1)</script>''\<rparr>)
        tone theme layout))"
    by simp
  have closed: "\<not> opensS (exportHtml bp)"
    using exportHtml_closed [of bp] by (simp add: closed_def)
  show ?thesis
    by (intro conjI ballI exportHtml_rendering document_shape [symmetric] document_texts
        exportHtml_structure filter_significant_escapeHtml unescape_escape text_escaped
        escapeHtml_plain closed exportHtml_no_script example)
qed

theorem exportHtml_escapes_witness:
  "js ''Get <b>&\"it\"'' \<in> set (blueprintTexts
      (compose 0 (sampleBrief\<lparr>cta := js ''Get <b>&\"it\"''\<rparr>)
         (hd sampleTones) (hd sampleThemes) Split)) \<and>
   sublist (js ''Get &lt;b&gt;&amp;&quot;it&quot;'')
     (exportHtml (compose 0 (sampleBrief\<lparr>cta := js ''Get <b>&\"it\"''\<rparr>)
        (hd sampleTones) (hd sampleThemes) Split)) \<and>
   unescapeHtml (js ''Get &lt;b&gt;&amp;&quot;it&quot;'') = js ''Get <b>&\"it\"''"
proof -
  let ?bp = "compose 0 (sampleBrief\<lparr>cta := js ''Get <b>&\"it\"''\<rparr>)
    (hd sampleTones) (hd sampleThemes) Split"
  have "trim (js ''Get <b>&\"it\"'') \<noteq> []"
    by (simp add: trim_def js_def isWhiteSpace_def)
  then have m: "js ''Get <b>&\"it\"'' \<in> set (blueprintTexts ?bp)"
    by (simp add: blueprintTexts_def heroTexts_def compose_def composeHero_def
        normalizeBrief_def orPlaceholder_def)
  have e: "escapeHtml (js ''Get <b>&\"it\"'') = js ''Get &lt;b&gt;&amp;&quot;it&quot;''"
    by (simp add: escapeHtml_def escapeUnit_def js_def lt_def gt_def amp_def quot_def apos_def)
  note inst = exportHtml_escapes [of ?bp "js ''Get <b>&\"it\"''"]
  from inst m have "sublist (escapeHtml (js ''Get <b>&\"it\"'')) (exportHtml ?bp)"
    by blast
  moreover from inst have "unescapeHtml (escapeHtml (js ''Get <b>&\"it\"'')) = js ''Get <b>&\"it\"''"
    by blast
  ultimately show ?thesis
    using m e by simp
qed

end
